theory Spec2Isabelle
  imports Main
begin

section \<open>The dialog registry (the zustand store)\<close>

text \<open>
  The store keeps \<^verbatim>\<open>state: Record<string, { open: boolean }>\<close>, a plain object that
  starts as \<^verbatim>\<open>{}\<close>. Its own properties are a finite map from dialog ids to entries; an id
  is a string. The field \<^verbatim>\<open>open\<close> is called \<open>is_open\<close> here.
\<close>

type_synonym DialogId = string

record dialog_entry =
  is_open :: bool

type_synonym registry = "DialogId \<rightharpoonup> dialog_entry"

text \<open>
  A plain object inherits from \<^verbatim>\<open>Object.prototype\<close>, so \<^verbatim>\<open>state.state[id]\<close> finds an
  own entry, or else the inherited member when the id is the name of one (a function, or for
  \<^verbatim>\<open>__proto__\<close> the prototype itself), or else \<^verbatim>\<open>undefined\<close>. The draft the producer
  works on reads through the prototype chain in the same way.
\<close>

definition Object_prototype :: "string list" where
  "Object_prototype =
     [''constructor'', ''__defineGetter__'', ''__defineSetter__'', ''hasOwnProperty'',
      ''__lookupGetter__'', ''__lookupSetter__'', ''isPrototypeOf'', ''propertyIsEnumerable'',
      ''toString'', ''valueOf'', ''__proto__'', ''toLocaleString'']"

datatype property = Own dialog_entry | Inherited | Undefined

definition get_property :: "registry \<Rightarrow> DialogId \<Rightarrow> property" where
  "get_property st i =
     (case st i of
        Some e \<Rightarrow> Own e
      | None \<Rightarrow> if i \<in> set Object_prototype then Inherited else Undefined)"

text \<open>
  Writing a property of \<^verbatim>\<open>undefined\<close> raises a TypeError inside the producer. Writing
  \<^verbatim>\<open>__proto__\<close> on the draft goes to the setter inherited from \<^verbatim>\<open>Object.prototype\<close>,
  which asks the draft for a new prototype; the draft refuses with an error. Either exception
  leaves \<^verbatim>\<open>set\<close> before the store is replaced, so a failed mutation yields no new state.
\<close>

datatype error = TypeError | DraftError

text \<open>
  \<^verbatim>\<open>state.state[id] = { open: false }\<close>: a new own property, also where the id names an
  inherited function; at \<^verbatim>\<open>__proto__\<close> the inherited setter runs instead and no own
  property is made.
\<close>

definition registerDialog :: "DialogId \<Rightarrow> registry \<Rightarrow> error + registry" where
  "registerDialog i st =
     (if i = ''__proto__'' then Inl DraftError else Inr (st(i \<mapsto> \<lparr>is_open = False\<rparr>)))"

text \<open>\<^verbatim>\<open>delete state.state[id]\<close>: own properties only.\<close>

definition unregisterDialog :: "DialogId \<Rightarrow> registry \<Rightarrow> error + registry" where
  "unregisterDialog i st = Inr (st(i := None))"

text \<open>
  \<^verbatim>\<open>state.state[id].open = true\<close>: on an own entry the flag is set; on an inherited member
  the write lands on that member, which is no part of the store; on \<^verbatim>\<open>undefined\<close> it
  throws.
\<close>

definition openDialog :: "DialogId \<Rightarrow> registry \<Rightarrow> error + registry" where
  "openDialog i st =
     (case get_property st i of
        Own e \<Rightarrow> Inr (st(i \<mapsto> e\<lparr>is_open := True\<rparr>))
      | Inherited \<Rightarrow> Inr st
      | Undefined \<Rightarrow> Inl TypeError)"

text \<open>\<^verbatim>\<open>state.state[id].open = false\<close>\<close>

definition closeDialog :: "DialogId \<Rightarrow> registry \<Rightarrow> error + registry" where
  "closeDialog i st =
     (case get_property st i of
        Own e \<Rightarrow> Inr (st(i \<mapsto> e\<lparr>is_open := False\<rparr>))
      | Inherited \<Rightarrow> Inr st
      | Undefined \<Rightarrow> Inl TypeError)"

text \<open>Two store calls one after the other; the second is not reached when the first throws.\<close>

definition and_then ::
  "(registry \<Rightarrow> error + registry) \<Rightarrow> (registry \<Rightarrow> error + registry) \<Rightarrow> registry \<Rightarrow> error + registry"
where
  "and_then f g st = (case f st of Inl e \<Rightarrow> Inl e | Inr st' \<Rightarrow> g st')"

text \<open>The store after a call: unchanged when the call threw.\<close>

definition store_after :: "(registry \<Rightarrow> error + registry) \<Rightarrow> registry \<Rightarrow> registry" where
  "store_after f st = (case f st of Inl e \<Rightarrow> st | Inr st' \<Rightarrow> st')"

section \<open>The document and the renderer\<close>

text \<open>
  The page is a heap of \<^verbatim>\<open>div\<close> elements addressed by their index; a reference to an
  element is its address. Every element carries its \<^verbatim>\<open>id\<close> attribute, its
  \<^verbatim>\<open>parentNode\<close> (the only parent this code attaches to is \<^verbatim>\<open>document.body\<close>) and
  the tree that \<^verbatim>\<open>ReactDOM.render\<close> has put into it. A browser context is assumed
  throughout (outside of one the hook only logs a warning).
\<close>

type_synonym node = nat

datatype parent = Body

text \<open>\<^verbatim>\<open>fallback={null}\<close> in \<^verbatim>\<open>open\<close>, \<^verbatim>\<open><div>Loading...</div>\<close> in the update effect.\<close>

datatype fallback = NullFallback | LoadingFallback

text \<open>
  \<^verbatim>\<open><Suspense fallback=...><Component {...props} id={id} /></Suspense>\<close>; the component
  type is the hook's first argument and stays the same for one controller.
\<close>

record 'v element =
  fallback :: fallback
  component_props :: "string \<rightharpoonup> 'v"
  component_id :: DialogId

record 'v div_node =
  node_id :: string
  parentNode :: "parent option"
  root :: "'v element option"

text \<open>
  The hook's properties \<^verbatim>\<open>T extends { id: DialogId } & Record<string, unknown>\<close>, as the
  hook destructures them into \<^verbatim>\<open>{ id, ...props }\<close>, and \<^verbatim>\<open>Partial<T>\<close>, where the
  id may be missing as well.
\<close>

record 'v dialog_props =
  dlg_id :: DialogId
  props :: "string \<rightharpoonup> 'v"

record 'v partial_props =
  new_id :: "DialogId option"
  new_props :: "string \<rightharpoonup> 'v"

text \<open>The calls the hook makes on the document, the renderer and the store, in order.\<close>

datatype 'v call =
    CreateElement node
  | AppendChild node
  | RemoveChild node
  | Render "'v element" node
  | UnmountComponentAtNode node
  | StoreRegister DialogId
  | StoreOpen DialogId
  | StoreClose DialogId

text \<open>
  Everything one controller can see or change: the store, the page, the call log, the two
  \<^verbatim>\<open>useState\<close> cells, the two refs, the id the registration effect last ran for, and the
  values bound by the latest render of the hook (\<open>rendered\<close> is \<^verbatim>\<open>{ id, ...props }\<close>;
  \<open>isMounted\<close> and \<open>container\<close> are what the hook returned). \<^verbatim>\<open>open\<close>,
  \<^verbatim>\<open>close\<close> and \<^verbatim>\<open>updateProps\<close> are the closures of the latest render.
\<close>

record 'v world =
  store :: registry
  document :: "'v div_node list"
  calls :: "'v call list"
  propsState :: "'v dialog_props"
  isMountedState :: bool
  containerRef :: "node option"
  mountTargetRef :: "parent option"
  registeredId :: "DialogId option"
  rendered :: "'v dialog_props"
  isMounted :: bool
  container :: "node option"

text \<open>A call returns, or throws and leaves the world as it was at the throw.\<close>

datatype 'w outcome = Returns 'w | Throws error 'w

fun world_of :: "'w outcome \<Rightarrow> 'w" where
  "world_of (Returns w) = w"
| "world_of (Throws e w) = w"

fun returns :: "'w outcome \<Rightarrow> bool" where
  "returns (Returns w) = True"
| "returns (Throws e w) = False"

definition node_at :: "'v world \<Rightarrow> node \<Rightarrow> 'v div_node option" where
  "node_at w n = (if n < length (document w) then Some (document w ! n) else None)"

definition update_node :: "('v div_node \<Rightarrow> 'v div_node) \<Rightarrow> node \<Rightarrow> 'v world \<Rightarrow> 'v world" where
  "update_node f n w =
     (if n < length (document w) then w\<lparr>document := (document w)[n := f (document w ! n)]\<rparr> else w)"

definition parentNode_of :: "'v world \<Rightarrow> node \<Rightarrow> parent option" where
  "parentNode_of w n = (case node_at w n of None \<Rightarrow> None | Some d \<Rightarrow> parentNode d)"

definition root_of :: "'v world \<Rightarrow> node \<Rightarrow> 'v element option" where
  "root_of w n = (case node_at w n of None \<Rightarrow> None | Some d \<Rightarrow> root d)"

definition logged :: "'v call \<Rightarrow> 'v world \<Rightarrow> 'v world" where
  "logged c w = w\<lparr>calls := calls w @ [c]\<rparr>"

text \<open>\<^verbatim>\<open>document.createElement('div')\<close>: a new, detached, empty element.\<close>

definition createElement :: "'v world \<Rightarrow> node \<times> 'v world" where
  "createElement w =
     (length (document w),
      logged (CreateElement (length (document w)))
        (w\<lparr>document := document w @ [\<lparr>node_id = [], parentNode = None, root = None\<rparr>]\<rparr>))"

definition appendChild :: "parent \<Rightarrow> node \<Rightarrow> 'v world \<Rightarrow> 'v world" where
  "appendChild p n w = update_node (\<lambda>d. d\<lparr>parentNode := Some p\<rparr>) n (logged (AppendChild n) w)"

definition removeChild :: "node \<Rightarrow> 'v world \<Rightarrow> 'v world" where
  "removeChild n w = update_node (\<lambda>d. d\<lparr>parentNode := None\<rparr>) n (logged (RemoveChild n) w)"

definition ReactDOM_render :: "'v element \<Rightarrow> node \<Rightarrow> 'v world \<Rightarrow> 'v world" where
  "ReactDOM_render el n w = update_node (\<lambda>d. d\<lparr>root := Some el\<rparr>) n (logged (Render el n) w)"

definition unmountComponentAtNode :: "node \<Rightarrow> 'v world \<Rightarrow> 'v world" where
  "unmountComponentAtNode n w =
     update_node (\<lambda>d. d\<lparr>root := None\<rparr>) n (logged (UnmountComponentAtNode n) w)"


text \<open>A call of a store mutation from the hook.\<close>

definition dispatch ::
  "'v call \<Rightarrow> (registry \<Rightarrow> error + registry) \<Rightarrow> 'v world \<Rightarrow> 'v world outcome"
where
  "dispatch c f w =
     (case f (store w) of
        Inl e \<Rightarrow> Throws e (logged c w)
      | Inr st \<Rightarrow> Returns (logged c (w\<lparr>store := st\<rparr>)))"

section \<open>The mount controller (the hook)\<close>

text \<open>\<^verbatim>\<open>open()\<close>\<close>

definition useDialog_open :: "'v world \<Rightarrow> 'v world outcome" where
  "useDialog_open w0 =
     (let i = dlg_id (rendered w0);
          w1 = (case containerRef w0 of
                  None \<Rightarrow>
                    (case createElement w0 of
                       (n, w) \<Rightarrow> (update_node (\<lambda>d. d\<lparr>node_id := i\<rparr>) n w)\<lparr>containerRef := Some n\<rparr>)
                | Some n \<Rightarrow> w0);
          w2 = w1\<lparr>mountTargetRef := Some Body\<rparr>;
          w3 = (case containerRef w2 of
                  None \<Rightarrow> w2
                | Some n \<Rightarrow>
                    if parentNode_of w2 n = None then appendChild Body n w2 else w2);
          el = \<lparr>fallback = NullFallback, component_props = props (rendered w0),
                component_id = i\<rparr>
      in case containerRef w3 of
           None \<Rightarrow> Returns w3
         | Some n \<Rightarrow>
             dispatch (StoreOpen i) (openDialog i)
               ((ReactDOM_render el n w3)\<lparr>isMountedState := True\<rparr>))"

text \<open>\<^verbatim>\<open>close(debounce = 0)\<close>\<close>

definition useDialog_close :: "int \<Rightarrow> 'v world \<Rightarrow> 'v world outcome" where
  "useDialog_close debounce w0 =
     (let i = dlg_id (rendered w0)
      in case dispatch (StoreClose i) (closeDialog i) w0 of
           Throws e w \<Rightarrow> Throws e w
         | Returns w1 \<Rightarrow>
             (let w2 = (case containerRef w1 of
                          None \<Rightarrow> w1
                        | Some n \<Rightarrow> unmountComponentAtNode n w1);
                  w3 = (case containerRef w2 of
                          None \<Rightarrow> w2
                        | Some n \<Rightarrow>
                            if parentNode_of w2 n \<noteq> None then removeChild n w2 else w2)
              in Returns (w3\<lparr>containerRef := None, isMountedState := False\<rparr>)))"

text \<open>\<^verbatim>\<open>{ ...oldProps, ...newProps }\<close>\<close>

definition merge_props :: "'v dialog_props \<Rightarrow> 'v partial_props \<Rightarrow> 'v dialog_props" where
  "merge_props oldProps newProps =
     \<lparr>dlg_id = (case new_id newProps of None \<Rightarrow> dlg_id oldProps | Some i \<Rightarrow> i),
      props = props oldProps ++ new_props newProps\<rparr>"

text \<open>
  \<^verbatim>\<open>updateProps(newProps)\<close>: the updater is pure and updaters are applied in the order
  they were queued, so the cell holds the merged value when the next render reads it.
\<close>

definition useDialog_updateProps :: "'v partial_props \<Rightarrow> 'v world \<Rightarrow> 'v world" where
  "useDialog_updateProps newProps w = w\<lparr>propsState := merge_props (propsState w) newProps\<rparr>"

text \<open>
  One render of the hook, followed by its effects. The registration effect runs when the id
  differs from the one it last ran for. The update effect depends on \<^verbatim>\<open>props\<close>, a new
  object in every render, so it runs after every render.
\<close>

definition useDialog :: "'v world \<Rightarrow> 'v world outcome" where
  "useDialog w0 =
     (let w1 = w0\<lparr>rendered := propsState w0, isMounted := isMountedState w0,
                  container := containerRef w0\<rparr>;
          i = dlg_id (rendered w1)
      in case (if registeredId w1 = Some i then Returns w1
               else dispatch (StoreRegister i) (registerDialog i) (w1\<lparr>registeredId := Some i\<rparr>)) of
           Throws e w \<Rightarrow> Throws e w
         | Returns w2 \<Rightarrow>
             Returns
               (case containerRef w2 of
                  None \<Rightarrow> w2
                | Some n \<Rightarrow>
                    if isMounted w2
                    then ReactDOM_render
                           \<lparr>fallback = LoadingFallback, component_props = props (rendered w2),
                            component_id = i\<rparr> n w2
                    else w2))"

text \<open>The controller before its first render, on a given store and page.\<close>

definition initial :: "registry \<Rightarrow> 'v div_node list \<Rightarrow> 'v dialog_props \<Rightarrow> 'v world" where
  "initial st doc initialProps =
     \<lparr>store = st, document = doc, calls = [], propsState = initialProps,
      isMountedState = False, containerRef = None, mountTargetRef = None,
      registeredId = None, rendered = initialProps, isMounted = False, container = None\<rparr>"

text \<open>What can happen to a controller after its first render.\<close>

datatype 'v action = CallOpen | CallClose int | CallUpdateProps "'v partial_props" | Rerender

fun step :: "'v action \<Rightarrow> 'v world \<Rightarrow> 'v world outcome" where
  "step CallOpen w = useDialog_open w"
| "step (CallClose debounce) w = useDialog_close debounce w"
| "step (CallUpdateProps newProps) w = Returns (useDialog_updateProps newProps w)"
| "step Rerender w = useDialog w"

fun run :: "'v action list \<Rightarrow> 'v world \<Rightarrow> 'v world outcome" where
  "run [] w = Returns w"
| "run (a # as) w = (case step a w of Throws e w' \<Rightarrow> Throws e w' | Returns w' \<Rightarrow> run as w')"

inductive reachable :: "'v world \<Rightarrow> bool" where
  first_render: "useDialog (initial st doc initialProps) = Returns w \<Longrightarrow> reachable w"
| next_step: "reachable w \<Longrightarrow> step a w = Returns w' \<Longrightarrow> reachable w'"

text \<open>
  What holds of a controller after its first render and after every call that follows: the
  registration effect has run for the id the closures hold, that id has an entry, which is
  closed while there is no container, the state cell \<^verbatim>\<open>isMounted\<close> is true exactly
  when there is a container, and the container is a child of the body.
\<close>

definition controller_inv :: "'v world \<Rightarrow> bool" where
  "controller_inv w =
     (registeredId w = Some (dlg_id (rendered w)) \<and>
      (case store w (dlg_id (rendered w)) of
         None \<Rightarrow> False
       | Some e \<Rightarrow> containerRef w = None \<longrightarrow> \<not> is_open e) \<and>
      (isMountedState w \<longleftrightarrow> containerRef w \<noteq> None) \<and>
      (case containerRef w of
         None \<Rightarrow> True
       | Some n \<Rightarrow> parentNode_of w n = Some Body))"

text \<open>
  A page with one element under the body, and on it a controller for the dialog
  \<^verbatim>\<open>modal-1\<close>: after its first render (\<open>modal1\<close>), and after \<^verbatim>\<open>open()\<close> and the render
  that follows (\<open>modal1_mounted\<close>).
\<close>

definition modal1_props :: "int dialog_props" where
  "modal1_props = \<lparr>dlg_id = ''modal-1'', props = [''title'' \<mapsto> 7]\<rparr>"

definition modal1 :: "int world" where
  "modal1 =
     world_of (useDialog (initial Map.empty
       [\<lparr>node_id = ''app'', parentNode = Some Body, root = None\<rparr>] modal1_props))"

definition modal1_mounted :: "int world" where
  "modal1_mounted = world_of (run [CallOpen, Rerender] modal1)"

text \<open>
  The same controller with a new id waiting in the state cell (\<open>modal1_pending\<close>), the
  mounted one after its id was changed and the hook rendered again (\<open>modal1_renamed\<close>),
  and a controller on a page whose body already has a child with the dialog's id
  (\<open>modal1_twin\<close>).
\<close>

definition rename_modal2 :: "int partial_props" where
  "rename_modal2 = \<lparr>new_id = Some ''modal-2'', new_props = Map.empty\<rparr>"


definition modal1_renamed :: "int world" where
  "modal1_renamed = world_of (run [CallUpdateProps rename_modal2, Rerender] modal1_mounted)"


text \<open>
  A controller that \<^verbatim>\<open>open()\<close> has been called on and that has not been closed since,
  every render since then having found the id it had at that call.
\<close>

inductive opened :: "'v world \<Rightarrow> bool" where
  by_open: "reachable w \<Longrightarrow> useDialog_open w = Returns w' \<Longrightarrow> opened w'"
| kept_by_updateProps: "opened w \<Longrightarrow> opened (useDialog_updateProps newProps w)"
| kept_by_render:
    "opened w \<Longrightarrow> dlg_id (propsState w) = dlg_id (rendered w) \<Longrightarrow> useDialog w = Returns w' \<Longrightarrow>
     opened w'"

section \<open>Properties of the registry\<close>

lemma entry_update: "(e :: dialog_entry)\<lparr>is_open := b\<rparr> = \<lparr>is_open = b\<rparr>"
  by (cases e) simp

lemma get_property_own: "st i = Some e \<Longrightarrow> get_property st i = Own e"
  by (simp add: get_property_def)

lemma openDialog_own: "st i = Some e \<Longrightarrow> openDialog i st = Inr (st(i \<mapsto> \<lparr>is_open = True\<rparr>))"
  by (simp add: openDialog_def get_property_own entry_update)

lemma closeDialog_own: "st i = Some e \<Longrightarrow> closeDialog i st = Inr (st(i \<mapsto> \<lparr>is_open = False\<rparr>))"
  by (simp add: closeDialog_def get_property_own entry_update)

lemma constructor_inherited: "''constructor'' \<in> set Object_prototype"
  by (simp add: Object_prototype_def)

text \<open>
  C2. On an id without an entry that is not the name of a member of \<^verbatim>\<open>Object.prototype\<close>,
  \<open>openDialog\<close> and \<open>closeDialog\<close> throw, and the store stays as it was: no entry is
  created and nothing handles the error. On an id with an entry, \<open>openDialog\<close> sets the
  entry's open flag and \<open>closeDialog\<close> clears it.
\<close>

theorem openDialog_closeDialog_entry:
  "(st i = None \<longrightarrow> i \<notin> set Object_prototype \<longrightarrow>
      openDialog i st = Inl TypeError \<and> closeDialog i st = Inl TypeError \<and>
      store_after (openDialog i) st = st \<and> store_after (closeDialog i) st = st) \<and>
   (st i \<noteq> None \<longrightarrow>
      openDialog i st = Inr (st(i \<mapsto> \<lparr>is_open = True\<rparr>)) \<and>
      closeDialog i st = Inr (st(i \<mapsto> \<lparr>is_open = False\<rparr>)))"
  by (auto simp: openDialog_def closeDialog_def get_property_def store_after_def entry_update)

theorem openDialog_closeDialog_entry_witness:
  "[''a'' \<mapsto> \<lparr>is_open = False\<rparr>] ''b'' = None \<and> ''b'' \<notin> set Object_prototype \<and>
   openDialog ''b'' [''a'' \<mapsto> \<lparr>is_open = False\<rparr>] = Inl TypeError \<and>
   closeDialog ''b'' [''a'' \<mapsto> \<lparr>is_open = False\<rparr>] = Inl TypeError \<and>
   [''a'' \<mapsto> \<lparr>is_open = False\<rparr>] ''a'' \<noteq> None \<and>
   openDialog ''a'' [''a'' \<mapsto> \<lparr>is_open = False\<rparr>] = Inr [''a'' \<mapsto> \<lparr>is_open = True\<rparr>] \<and>
   closeDialog ''a'' [''a'' \<mapsto> \<lparr>is_open = True\<rparr>] = Inr [''a'' \<mapsto> \<lparr>is_open = False\<rparr>]"
proof -
  have n: "''b'' \<notin> set Object_prototype" by (simp add: Object_prototype_def)
  show ?thesis
    using n
      openDialog_closeDialog_entry [of "[''a'' \<mapsto> \<lparr>is_open = False\<rparr>]" "''b''"]
      openDialog_closeDialog_entry [of "[''a'' \<mapsto> \<lparr>is_open = False\<rparr>]" "''a''"]
      openDialog_closeDialog_entry [of "[''a'' \<mapsto> \<lparr>is_open = True\<rparr>]" "''a''"]
    by simp
qed

text \<open>
  The id \<^verbatim>\<open>constructor\<close> has no entry in the store with the one entry \<^verbatim>\<open>a\<close>, and
  neither call throws on it: each returns and leaves the store as it was.
\<close>

theorem openDialog_closeDialog_inherited_counterexample:
  "[''a'' \<mapsto> \<lparr>is_open = False\<rparr>] ''constructor'' = None \<and>
   openDialog ''constructor'' [''a'' \<mapsto> \<lparr>is_open = False\<rparr>] = Inr [''a'' \<mapsto> \<lparr>is_open = False\<rparr>] \<and>
   closeDialog ''constructor'' [''a'' \<mapsto> \<lparr>is_open = False\<rparr>] = Inr [''a'' \<mapsto> \<lparr>is_open = False\<rparr>]"
  by (simp add: openDialog_def closeDialog_def get_property_def constructor_inherited)

text \<open>
  C3. On every id other than \<^verbatim>\<open>__proto__\<close>, \<open>registerDialog\<close> does not throw and puts
  the closed entry at the id, whatever was there before; registering the same id twice in a
  row gives the same store as registering it once.
\<close>

theorem registerDialog_overwrites:
  "i \<noteq> ''__proto__'' \<Longrightarrow>
     registerDialog i st = Inr (st(i \<mapsto> \<lparr>is_open = False\<rparr>)) \<and>
     and_then (registerDialog i) (registerDialog i) st = registerDialog i st"
  by (simp add: registerDialog_def and_then_def)

theorem registerDialog_overwrites_witness:
  "''constructor'' \<noteq> ''__proto__'' \<and>
   registerDialog ''constructor'' [''a'' \<mapsto> \<lparr>is_open = True\<rparr>]
     = Inr [''a'' \<mapsto> \<lparr>is_open = True\<rparr>, ''constructor'' \<mapsto> \<lparr>is_open = False\<rparr>] \<and>
   registerDialog ''a'' [''a'' \<mapsto> \<lparr>is_open = True\<rparr>] = Inr [''a'' \<mapsto> \<lparr>is_open = False\<rparr>] \<and>
   and_then (registerDialog ''a'') (registerDialog ''a'') [''a'' \<mapsto> \<lparr>is_open = True\<rparr>]
     = registerDialog ''a'' [''a'' \<mapsto> \<lparr>is_open = True\<rparr>]"
  using registerDialog_overwrites [of "''constructor''" "[''a'' \<mapsto> \<lparr>is_open = True\<rparr>]"]
        registerDialog_overwrites [of "''a''" "[''a'' \<mapsto> \<lparr>is_open = True\<rparr>]"]
  by simp

text \<open>
  Registering \<^verbatim>\<open>__proto__\<close> in the store with the one entry \<^verbatim>\<open>a\<close> is an error, and
  there is no entry at \<^verbatim>\<open>__proto__\<close> afterwards.
\<close>

theorem registerDialog_proto_counterexample:
  "registerDialog ''__proto__'' [''a'' \<mapsto> \<lparr>is_open = True\<rparr>] = Inl DraftError \<and>
   store_after (registerDialog ''__proto__'') [''a'' \<mapsto> \<lparr>is_open = True\<rparr>] ''__proto__'' = None"
  by (simp add: registerDialog_def store_after_def)

text \<open>
  C4. On a registered id, \<open>openDialog\<close> then \<open>closeDialog\<close> leaves the entry closed;
  \<open>closeDialog\<close> then \<open>openDialog\<close> leaves it open, and running that pair twice gives
  the same store as running it once.
\<close>

theorem open_close_sequences:
  "st i \<noteq> None \<Longrightarrow>
     and_then (openDialog i) (closeDialog i) st = Inr (st(i \<mapsto> \<lparr>is_open = False\<rparr>)) \<and>
     and_then (closeDialog i) (openDialog i) st = Inr (st(i \<mapsto> \<lparr>is_open = True\<rparr>)) \<and>
     and_then (and_then (closeDialog i) (openDialog i)) (and_then (closeDialog i) (openDialog i)) st
       = and_then (closeDialog i) (openDialog i) st"
  by (auto simp: openDialog_def closeDialog_def get_property_def and_then_def entry_update)

theorem open_close_sequences_witness:
  "[''a'' \<mapsto> \<lparr>is_open = True\<rparr>] ''a'' \<noteq> None \<and>
   and_then (openDialog ''a'') (closeDialog ''a'') [''a'' \<mapsto> \<lparr>is_open = True\<rparr>]
     = Inr [''a'' \<mapsto> \<lparr>is_open = False\<rparr>] \<and>
   and_then (and_then (closeDialog ''a'') (openDialog ''a''))
            (and_then (closeDialog ''a'') (openDialog ''a'')) [''a'' \<mapsto> \<lparr>is_open = True\<rparr>]
     = and_then (closeDialog ''a'') (openDialog ''a'') [''a'' \<mapsto> \<lparr>is_open = True\<rparr>]"
  using open_close_sequences [of "[''a'' \<mapsto> \<lparr>is_open = True\<rparr>]" "''a''"]
  by simp

text \<open>
  C10. Each of the four store mutations leaves every key other than the one it names as it
  was, present or absent, open or closed, whether the mutation returns or throws.
\<close>

theorem store_mutations_local:
  "k \<noteq> i \<Longrightarrow>
     store_after (registerDialog i) st k = st k \<and>
     store_after (unregisterDialog i) st k = st k \<and>
     store_after (openDialog i) st k = st k \<and>
     store_after (closeDialog i) st k = st k"
  by (auto simp: registerDialog_def unregisterDialog_def openDialog_def closeDialog_def
        get_property_def store_after_def split: option.splits)

theorem store_mutations_local_witness:
  "''k'' \<noteq> ''a'' \<and>
   store_after (registerDialog ''a'') [''k'' \<mapsto> \<lparr>is_open = True\<rparr>] ''k'' = Some \<lparr>is_open = True\<rparr> \<and>
   store_after (unregisterDialog ''a'') [''k'' \<mapsto> \<lparr>is_open = True\<rparr>] ''k'' = Some \<lparr>is_open = True\<rparr> \<and>
   store_after (openDialog ''a'') [''k'' \<mapsto> \<lparr>is_open = True\<rparr>] ''k'' = Some \<lparr>is_open = True\<rparr> \<and>
   store_after (closeDialog ''a'') [''k'' \<mapsto> \<lparr>is_open = True\<rparr>] ''k'' = Some \<lparr>is_open = True\<rparr>"
  using store_mutations_local [of "''k''" "''a''" "[''k'' \<mapsto> \<lparr>is_open = True\<rparr>]"]
  by simp

section \<open>Properties of the mount controller\<close>

subsection \<open>What every reachable controller satisfies\<close>

lemmas dom_defs = node_at_def update_node_def parentNode_of_def root_of_def logged_def createElement_def
  appendChild_def removeChild_def ReactDOM_render_def unmountComponentAtNode_def dispatch_def

lemma inv_first:
  "useDialog (initial st doc p) = Returns w \<Longrightarrow> controller_inv w"
  by (auto simp: useDialog_def initial_def controller_inv_def dom_defs registerDialog_def Let_def
      split: if_splits option.splits sum.splits)

lemma inv_rerender:
  "controller_inv w \<Longrightarrow> useDialog w = Returns w' \<Longrightarrow> controller_inv w'"
  by (auto simp: useDialog_def controller_inv_def dom_defs registerDialog_def Let_def
      split: if_splits option.splits sum.splits)

lemma inv_open:
  "controller_inv w \<Longrightarrow> useDialog_open w = Returns w' \<Longrightarrow> controller_inv w'"
  by (auto simp: useDialog_open_def controller_inv_def dom_defs openDialog_def get_property_def
      Let_def split: if_splits option.splits sum.splits)

lemma inv_close:
  "controller_inv w \<Longrightarrow> useDialog_close d w = Returns w' \<Longrightarrow> controller_inv w'"
  by (auto simp: useDialog_close_def controller_inv_def dom_defs closeDialog_def get_property_def
      Let_def split: if_splits option.splits sum.splits)

lemma inv_update:
  "controller_inv w \<Longrightarrow> controller_inv (useDialog_updateProps p w)"
  by (auto simp: useDialog_updateProps_def controller_inv_def dom_defs 
      split: if_splits option.splits sum.splits)

lemma inv_step: "controller_inv w \<Longrightarrow> step a w = Returns w' \<Longrightarrow> controller_inv w'"
  by (cases a) (auto intro: inv_open inv_close inv_update inv_rerender)

lemma reachable_inv: "reachable w \<Longrightarrow> controller_inv w"
  by (induction rule: reachable.induct) (auto intro: inv_first inv_step)

lemma inv_registered: "controller_inv w \<Longrightarrow> \<exists>e. store w (dlg_id (rendered w)) = Some e"
  by (auto simp: controller_inv_def split: option.splits)

lemma inv_closed:
  "controller_inv w \<Longrightarrow> containerRef w = None \<Longrightarrow>
     store w (dlg_id (rendered w)) = Some \<lparr>is_open = False\<rparr> \<and> \<not> isMountedState w"
  by (auto simp: controller_inv_def split: option.splits)

lemma inv_attached:
  "controller_inv w \<Longrightarrow> containerRef w = Some n \<Longrightarrow>
     parentNode_of w n = Some Body \<and> n < length (document w) \<and> isMountedState w"
  by (auto simp: controller_inv_def parentNode_of_def node_at_def split: option.splits if_splits)

lemma inv_registeredId: "controller_inv w \<Longrightarrow> registeredId w = Some (dlg_id (rendered w))"
  by (simp add: controller_inv_def)

lemma reachable_run: "reachable w \<Longrightarrow> run as w = Returns w' \<Longrightarrow> reachable w'"
proof (induction as arbitrary: w)
  case Nil
  then show ?case by simp
next
  case (Cons a as)
  then show ?case
    by (auto split: outcome.splits intro: reachable.next_step)
qed

text \<open>
  So no call of a reachable controller throws, but for the render that finds the id
  \<^verbatim>\<open>__proto__\<close> in the state cell.
\<close>

lemma reachable_step_returns:
  assumes "reachable w" and "a = Rerender \<longrightarrow> dlg_id (propsState w) \<noteq> ''__proto__''"
  shows "returns (step a w)"
proof -
  have inv: "controller_inv w" using assms(1) by (rule reachable_inv)
  then obtain e where e: "store w (dlg_id (rendered w)) = Some e"
    using inv_registered by blast
  show ?thesis
  proof (cases a)
    case CallOpen
    then show ?thesis
      using e by (auto simp: useDialog_open_def dom_defs openDialog_own Let_def
          split: option.splits)
  next
    case (CallClose d)
    then show ?thesis
      using e by (auto simp: useDialog_close_def dom_defs closeDialog_own Let_def
          split: option.splits)
  next
    case (CallUpdateProps p)
    then show ?thesis by simp
  next
    case Rerender
    then show ?thesis
      using assms(2) by (auto simp: useDialog_def dom_defs registerDialog_def Let_def)
  qed
qed

subsection \<open>The calls, as equations\<close>

lemma open_unmounted:
  assumes "containerRef w = None" "store w (dlg_id (rendered w)) = Some e"
  shows "useDialog_open w =
     Returns (w\<lparr>store := (store w)(dlg_id (rendered w) \<mapsto> \<lparr>is_open = True\<rparr>),
               document := document w @
                 [\<lparr>node_id = dlg_id (rendered w), parentNode = Some Body,
                   root = Some \<lparr>fallback = NullFallback, component_props = props (rendered w),
                                component_id = dlg_id (rendered w)\<rparr>\<rparr>],
               calls := calls w @
                 [CreateElement (length (document w)), AppendChild (length (document w)),
                  Render \<lparr>fallback = NullFallback, component_props = props (rendered w),
                          component_id = dlg_id (rendered w)\<rparr> (length (document w)),
                  StoreOpen (dlg_id (rendered w))],
               isMountedState := True, containerRef := Some (length (document w)),
               mountTargetRef := Some Body\<rparr>)"
  using assms
  by (cases w) (simp add: useDialog_open_def dom_defs openDialog_own Let_def)

lemma open_mounted:
  assumes "containerRef w = Some n" "parentNode_of w n = Some Body"
    "store w (dlg_id (rendered w)) = Some e"
  shows "useDialog_open w =
     Returns (w\<lparr>store := (store w)(dlg_id (rendered w) \<mapsto> \<lparr>is_open = True\<rparr>),
               document := (document w)
                 [n := (document w ! n)\<lparr>root := Some \<lparr>fallback = NullFallback,
                     component_props = props (rendered w), component_id = dlg_id (rendered w)\<rparr>\<rparr>],
               calls := calls w @
                 [Render \<lparr>fallback = NullFallback, component_props = props (rendered w),
                          component_id = dlg_id (rendered w)\<rparr> n,
                  StoreOpen (dlg_id (rendered w))],
               isMountedState := True, mountTargetRef := Some Body\<rparr>)"
  using assms
  by (cases w) (simp add: useDialog_open_def dom_defs openDialog_own Let_def split: if_splits)

lemma close_mounted:
  assumes "containerRef w = Some n" "parentNode_of w n = Some Body"
    "store w (dlg_id (rendered w)) = Some e"
  shows "useDialog_close d w =
     Returns (w\<lparr>store := (store w)(dlg_id (rendered w) \<mapsto> \<lparr>is_open = False\<rparr>),
               document := (document w)
                 [n := (document w ! n)\<lparr>root := None, parentNode := None\<rparr>],
               calls := calls w @
                 [StoreClose (dlg_id (rendered w)), UnmountComponentAtNode n, RemoveChild n],
               isMountedState := False, containerRef := None\<rparr>)"
  using assms
  by (cases w) (simp add: useDialog_close_def dom_defs closeDialog_own Let_def split: if_splits)

lemma close_unmounted:
  assumes "containerRef w = None" "store w (dlg_id (rendered w)) = Some e"
  shows "useDialog_close d w =
     Returns (w\<lparr>store := (store w)(dlg_id (rendered w) \<mapsto> \<lparr>is_open = False\<rparr>),
               calls := calls w @ [StoreClose (dlg_id (rendered w))],
               isMountedState := False\<rparr>)"
  using assms
  by (cases w) (simp add: useDialog_close_def dom_defs closeDialog_own Let_def split: if_splits)

lemma rerender_unmounted:
  assumes "containerRef w = None"
    and "registeredId w = Some (dlg_id (propsState w)) \<or> dlg_id (propsState w) \<noteq> ''__proto__''"
  shows "useDialog w =
     Returns (w\<lparr>rendered := propsState w, isMounted := isMountedState w, container := None,
               registeredId := Some (dlg_id (propsState w)),
               store := (if registeredId w = Some (dlg_id (propsState w)) then store w
                         else (store w)(dlg_id (propsState w) \<mapsto> \<lparr>is_open = False\<rparr>)),
               calls := calls w @ (if registeredId w = Some (dlg_id (propsState w)) then []
                         else [StoreRegister (dlg_id (propsState w))])\<rparr>)"
  using assms
  by (cases w) (auto simp: useDialog_def dom_defs registerDialog_def Let_def)

lemma rerender_mounted:
  assumes "containerRef w = Some n" "n < length (document w)" "isMountedState w"
    and "registeredId w = Some (dlg_id (propsState w)) \<or> dlg_id (propsState w) \<noteq> ''__proto__''"
  shows "useDialog w =
     Returns (w\<lparr>rendered := propsState w, isMounted := True, container := Some n,
               registeredId := Some (dlg_id (propsState w)),
               store := (if registeredId w = Some (dlg_id (propsState w)) then store w
                         else (store w)(dlg_id (propsState w) \<mapsto> \<lparr>is_open = False\<rparr>)),
               document := (document w)
                 [n := (document w ! n)\<lparr>root := Some \<lparr>fallback = LoadingFallback,
                     component_props = props (propsState w),
                     component_id = dlg_id (propsState w)\<rparr>\<rparr>],
               calls := calls w @ (if registeredId w = Some (dlg_id (propsState w)) then []
                         else [StoreRegister (dlg_id (propsState w))]) @
                  [Render \<lparr>fallback = LoadingFallback, component_props = props (propsState w),
                     component_id = dlg_id (propsState w)\<rparr> n]\<rparr>)"
  using assms
  by (cases w) (auto simp: useDialog_def dom_defs registerDialog_def Let_def)

subsection \<open>The example controller\<close>

lemma modal1_eq:
  "modal1 =
     \<lparr>store = [''modal-1'' \<mapsto> \<lparr>is_open = False\<rparr>],
      document = [\<lparr>node_id = ''app'', parentNode = Some Body, root = None\<rparr>],
      calls = [StoreRegister ''modal-1''], propsState = modal1_props,
      isMountedState = False, containerRef = None, mountTargetRef = None,
      registeredId = Some ''modal-1'', rendered = modal1_props, isMounted = False,
      container = None\<rparr>"
  by (simp add: modal1_def useDialog_def initial_def modal1_props_def dispatch_def logged_def
      registerDialog_def Let_def)

lemma modal1_reachable: "reachable modal1"
proof (rule reachable.first_render)
  show "useDialog (initial Map.empty [\<lparr>node_id = ''app'', parentNode = Some Body, root = None\<rparr>]
          modal1_props) = Returns modal1"
    by (simp add: modal1_def useDialog_def initial_def modal1_props_def dispatch_def logged_def
      registerDialog_def Let_def)
qed

lemma modal1_mounted_eq:
  "modal1_mounted =
     \<lparr>store = [''modal-1'' \<mapsto> \<lparr>is_open = True\<rparr>],
      document = [\<lparr>node_id = ''app'', parentNode = Some Body, root = None\<rparr>,
                  \<lparr>node_id = ''modal-1'', parentNode = Some Body,
                   root = Some \<lparr>fallback = LoadingFallback, component_props = [''title'' \<mapsto> 7],
                                component_id = ''modal-1''\<rparr>\<rparr>],
      calls = [StoreRegister ''modal-1'', CreateElement 1, AppendChild 1,
               Render \<lparr>fallback = NullFallback, component_props = [''title'' \<mapsto> 7],
                       component_id = ''modal-1''\<rparr> 1,
               StoreOpen ''modal-1'',
               Render \<lparr>fallback = LoadingFallback, component_props = [''title'' \<mapsto> 7],
                       component_id = ''modal-1''\<rparr> 1],
      propsState = modal1_props,
      isMountedState = True, containerRef = Some 1, mountTargetRef = Some Body,
      registeredId = Some ''modal-1'', rendered = modal1_props, isMounted = True,
      container = Some 1\<rparr>"
  by (simp add: modal1_mounted_def modal1_eq useDialog_open_def useDialog_def modal1_props_def
      dom_defs openDialog_def get_property_def registerDialog_def entry_update Let_def)

lemma modal1_mounted_reachable: "reachable modal1_mounted"
proof (rule reachable_run [OF modal1_reachable])
  show "run [CallOpen, Rerender] modal1 = Returns modal1_mounted"
    unfolding modal1_mounted_eq
    by (simp add: modal1_eq useDialog_open_def useDialog_def modal1_props_def
      dom_defs openDialog_def get_property_def registerDialog_def entry_update Let_def)
qed

lemmas hook_defs = useDialog_open_def useDialog_close_def useDialog_def useDialog_updateProps_def
  merge_props_def openDialog_def closeDialog_def registerDialog_def get_property_def entry_update
  Let_def

text \<open>An opened controller holds a container, and the entry of its id is open.\<close>

lemma opened_inv:
  "opened w \<Longrightarrow>
     reachable w \<and> containerRef w \<noteq> None \<and>
     store w (dlg_id (rendered w)) = Some \<lparr>is_open = True\<rparr>"
proof (induction rule: opened.induct)
  case (by_open w w')
  have inv: "controller_inv w" using by_open(1) by (rule reachable_inv)
  from inv_registered [OF inv] obtain e where e: "store w (dlg_id (rendered w)) = Some e" ..
  have r: "reachable w'"
    using by_open(1) by (rule reachable.next_step [where a = CallOpen]) (simp add: by_open(2))
  show ?case
  proof (cases "containerRef w")
    case None
    from open_unmounted [OF None e] by_open(2) r show ?thesis by auto
  next
    case (Some n)
    from inv_attached [OF inv Some] have p: "parentNode_of w n = Some Body" by simp
    from open_mounted [OF Some p e] by_open(2) r Some show ?thesis by auto
  qed
next
  case (kept_by_updateProps w newProps)
  then have "reachable (useDialog_updateProps newProps w)"
    by (auto intro: reachable.next_step [where a = "CallUpdateProps newProps"])
  with kept_by_updateProps show ?case
    by (simp add: useDialog_updateProps_def)
next
  case (kept_by_render w w')
  then have r: "reachable w" and c: "containerRef w \<noteq> None"
    and s: "store w (dlg_id (rendered w)) = Some \<lparr>is_open = True\<rparr>"
    by simp_all
  have inv: "controller_inv w" using r by (rule reachable_inv)
  from c obtain n where n: "containerRef w = Some n" by blast
  from inv_attached [OF inv n] have l: "n < length (document w)" and m: "isMountedState w"
    by simp_all
  have g: "registeredId w = Some (dlg_id (propsState w)) \<or> dlg_id (propsState w) \<noteq> ''__proto__''"
    using inv_registeredId [OF inv] kept_by_render(2) by simp
  have r': "reachable w'"
    using r by (rule reachable.next_step [where a = Rerender]) (simp add: kept_by_render(3))
  from rerender_mounted [OF n l m g] kept_by_render(3) kept_by_render(2) s r'
    inv_registeredId [OF inv] n
  show ?case by auto
qed



lemma modal1_renamed_eq:
  "modal1_renamed =
     \<lparr>store = [''modal-1'' \<mapsto> \<lparr>is_open = True\<rparr>, ''modal-2'' \<mapsto> \<lparr>is_open = False\<rparr>],
      document = [\<lparr>node_id = ''app'', parentNode = Some Body, root = None\<rparr>,
                  \<lparr>node_id = ''modal-1'', parentNode = Some Body,
                   root = Some \<lparr>fallback = LoadingFallback, component_props = [''title'' \<mapsto> 7],
                                component_id = ''modal-2''\<rparr>\<rparr>],
      calls = [StoreRegister ''modal-1'', CreateElement 1, AppendChild 1,
               Render \<lparr>fallback = NullFallback, component_props = [''title'' \<mapsto> 7],
                       component_id = ''modal-1''\<rparr> 1,
               StoreOpen ''modal-1'',
               Render \<lparr>fallback = LoadingFallback, component_props = [''title'' \<mapsto> 7],
                       component_id = ''modal-1''\<rparr> 1,
               StoreRegister ''modal-2'',
               Render \<lparr>fallback = LoadingFallback, component_props = [''title'' \<mapsto> 7],
                       component_id = ''modal-2''\<rparr> 1],
      propsState = \<lparr>dlg_id = ''modal-2'', props = [''title'' \<mapsto> 7]\<rparr>,
      isMountedState = True, containerRef = Some 1, mountTargetRef = Some Body,
      registeredId = Some ''modal-2'',
      rendered = \<lparr>dlg_id = ''modal-2'', props = [''title'' \<mapsto> 7]\<rparr>, isMounted = True,
      container = Some 1\<rparr>"
  by (simp add: modal1_renamed_def rename_modal2_def modal1_mounted_eq modal1_props_def
      hook_defs dom_defs)

lemma modal1_renamed_reachable: "reachable modal1_renamed"
proof (rule reachable_run [OF modal1_mounted_reachable])
  show "run [CallUpdateProps rename_modal2, Rerender] modal1_mounted = Returns modal1_renamed"
    unfolding modal1_renamed_eq
    by (simp add: rename_modal2_def modal1_mounted_eq modal1_props_def hook_defs dom_defs)
qed



lemma modal1_mounted_opened: "opened modal1_mounted"
proof -
  define w1 where "w1 = world_of (useDialog_open modal1)"
  have o: "useDialog_open modal1 = Returns w1"
    by (simp add: w1_def modal1_eq modal1_props_def hook_defs dom_defs)
  have o1: "opened w1" using modal1_reachable o by (rule opened.by_open)
  have i: "dlg_id (propsState w1) = dlg_id (rendered w1)"
    by (simp add: w1_def modal1_eq modal1_props_def hook_defs dom_defs)
  have r: "useDialog w1 = Returns modal1_mounted"
    unfolding modal1_mounted_eq
    by (simp add: w1_def modal1_eq modal1_props_def hook_defs dom_defs)
  from o1 i r show ?thesis by (rule opened.kept_by_render)
qed

subsection \<open>The lifecycle\<close>

text \<open>
  C1. \<^verbatim>\<open>close(debounce)\<close> is \<^verbatim>\<open>close(0)\<close> for every value of the delay, in every
  world. When the controller holds a container, the call returns with the entry of the
  controller's id closed, the content of the container unmounted, the container detached
  from the body and the reference to it dropped; all of it has happened when the call
  returns.
\<close>

theorem close_ignores_debounce:
  "useDialog_close debounce w = useDialog_close 0 w \<and>
   (reachable w \<longrightarrow> (\<forall>n. containerRef w = Some n \<longrightarrow>
      returns (useDialog_close debounce w) \<and>
      (let w' = world_of (useDialog_close debounce w); i = dlg_id (rendered w)
       in store w' i = Some \<lparr>is_open = False\<rparr> \<and>
          n < length (document w') \<and> root_of w' n = None \<and> parentNode_of w' n = None \<and>
          containerRef w' = None \<and> \<not> isMountedState w' \<and>
          calls w' = calls w @ [StoreClose i, UnmountComponentAtNode n, RemoveChild n])))"
proof (intro conjI impI allI)
  show "useDialog_close debounce w = useDialog_close 0 w"
    by (simp add: useDialog_close_def)
next
  fix n
  assume r: "reachable w" and c: "containerRef w = Some n"
  have inv: "controller_inv w" using r by (rule reachable_inv)
  from inv_attached [OF inv c]
  have p: "parentNode_of w n = Some Body" and n: "n < length (document w)" by simp_all
  from inv_registered [OF inv] obtain e where e: "store w (dlg_id (rendered w)) = Some e" ..
  note eq = close_mounted [OF c p e, of debounce]
  show "returns (useDialog_close debounce w)" by (simp add: eq)
  show "let w' = world_of (useDialog_close debounce w); i = dlg_id (rendered w)
       in store w' i = Some \<lparr>is_open = False\<rparr> \<and>
          n < length (document w') \<and> root_of w' n = None \<and> parentNode_of w' n = None \<and>
          containerRef w' = None \<and> \<not> isMountedState w' \<and>
          calls w' = calls w @ [StoreClose i, UnmountComponentAtNode n, RemoveChild n]"
    using n by (simp add: eq Let_def root_of_def parentNode_of_def node_at_def)
qed

theorem close_ignores_debounce_witness:
  "reachable modal1_mounted \<and> containerRef modal1_mounted = Some 1 \<and>
   useDialog_close 250 modal1_mounted = useDialog_close 0 modal1_mounted \<and>
   returns (useDialog_close 250 modal1_mounted) \<and>
   store (world_of (useDialog_close 250 modal1_mounted)) ''modal-1'' = Some \<lparr>is_open = False\<rparr> \<and>
   root_of (world_of (useDialog_close 250 modal1_mounted)) 1 = None \<and>
   parentNode_of (world_of (useDialog_close 250 modal1_mounted)) 1 = None \<and>
   containerRef (world_of (useDialog_close 250 modal1_mounted)) = None"
proof -
  note th = close_ignores_debounce [of 250 modal1_mounted]
  have c: "containerRef modal1_mounted = Some 1"
    by (simp add: modal1_mounted_eq)
  from th have a: "useDialog_close 250 modal1_mounted = useDialog_close 0 modal1_mounted"
    by (rule conjunct1)
  from th modal1_mounted_reachable c
  have b: "returns (useDialog_close 250 modal1_mounted) \<and>
      (let w' = world_of (useDialog_close 250 modal1_mounted); i = dlg_id (rendered modal1_mounted)
       in store w' i = Some \<lparr>is_open = False\<rparr> \<and>
          1 < length (document w') \<and> root_of w' 1 = None \<and> parentNode_of w' 1 = None \<and>
          containerRef w' = None \<and> \<not> isMountedState w' \<and>
          calls w' = calls modal1_mounted @
            [StoreClose i, UnmountComponentAtNode 1, RemoveChild 1])"
    by blast
  have i: "dlg_id (rendered modal1_mounted) = ''modal-1''"
    by (simp add: modal1_mounted_eq modal1_props_def)
  from b i show ?thesis
    using a c modal1_mounted_reachable by (simp only: Let_def)
qed






text \<open>
  C7. \<^verbatim>\<open>updateProps(partial)\<close> merges the partial properties into the current ones, the
  later value winning at every key and at the id, in every world, and makes no call by
  itself; two updates in a row give the properties merged with both. An \<^verbatim>\<open>open()\<close> called
  before the hook has rendered again renders the properties of the last render. When the
  merged id is not \<^verbatim>\<open>__proto__\<close>, the render that follows returns: a controller that
  holds a container has rendered the merged properties into it; one without a container has
  rendered nothing, and its next \<^verbatim>\<open>open()\<close> renders the merged properties, as does the
  render after an \<^verbatim>\<open>open()\<close> called before it.
\<close>

theorem updateProps_merges:
  "propsState (useDialog_updateProps p w) = merge_props (propsState w) p \<and>
   calls (useDialog_updateProps p w) = calls w \<and>
   dlg_id (merge_props q p) = (case new_id p of None \<Rightarrow> dlg_id q | Some i \<Rightarrow> i) \<and>
   props (merge_props q p) k = (case new_props p k of None \<Rightarrow> props q k | Some v \<Rightarrow> Some v) \<and>
   dlg_id (propsState (useDialog_updateProps pb (useDialog_updateProps pa w)))
     = (case new_id pb of
          Some i \<Rightarrow> i
        | None \<Rightarrow> (case new_id pa of Some i \<Rightarrow> i | None \<Rightarrow> dlg_id (propsState w))) \<and>
   props (propsState (useDialog_updateProps pb (useDialog_updateProps pa w)))
     = props (propsState w) ++ new_props pa ++ new_props pb \<and>
   (reachable w \<longrightarrow>
      (let n0 = length (document w);
           w0 = world_of (run [CallUpdateProps p, CallOpen] w)
       in containerRef w = None \<longrightarrow>
            returns (run [CallUpdateProps p, CallOpen] w) \<and>
            root_of w0 n0 = Some \<lparr>fallback = NullFallback, component_props = props (rendered w),
                                    component_id = dlg_id (rendered w)\<rparr>)) \<and>
   (reachable w \<longrightarrow> dlg_id (merge_props (propsState w) p) \<noteq> ''__proto__'' \<longrightarrow>
      (let m = merge_props (propsState w) p;
           r = run [CallUpdateProps p, Rerender] w;
           w' = world_of r;
           reg = (if dlg_id m = dlg_id (rendered w) then [] else [StoreRegister (dlg_id m)])
       in returns r \<and> rendered w' = m \<and> propsState w' = m \<and>
          (\<forall>n. containerRef w = Some n \<longrightarrow>
             calls w' = calls w @ reg @
               [Render \<lparr>fallback = LoadingFallback, component_props = props m,
                        component_id = dlg_id m\<rparr> n] \<and>
             root_of w' n = Some \<lparr>fallback = LoadingFallback, component_props = props m,
                                   component_id = dlg_id m\<rparr>) \<and>
          (containerRef w = None \<longrightarrow>
             calls w' = calls w @ reg \<and> document w' = document w \<and>
             returns (useDialog_open w') \<and>
             root_of (world_of (useDialog_open w')) (length (document w))
               = Some \<lparr>fallback = NullFallback, component_props = props m,
                        component_id = dlg_id m\<rparr> \<and>
             root_of (world_of (run [CallUpdateProps p, CallOpen, Rerender] w))
                 (length (document w))
               = Some \<lparr>fallback = LoadingFallback, component_props = props m,
                        component_id = dlg_id m\<rparr>)))"
proof (intro conjI impI)
  show "propsState (useDialog_updateProps p w) = merge_props (propsState w) p"
    by (simp add: useDialog_updateProps_def)
  show "calls (useDialog_updateProps p w) = calls w"
    by (simp add: useDialog_updateProps_def)
  show "dlg_id (merge_props q p) = (case new_id p of None \<Rightarrow> dlg_id q | Some i \<Rightarrow> i)"
    by (simp add: merge_props_def)
  show "props (merge_props q p) k = (case new_props p k of None \<Rightarrow> props q k | Some v \<Rightarrow> Some v)"
    by (simp add: merge_props_def map_add_def)
  show "dlg_id (propsState (useDialog_updateProps pb (useDialog_updateProps pa w)))
     = (case new_id pb of
          Some i \<Rightarrow> i
        | None \<Rightarrow> (case new_id pa of Some i \<Rightarrow> i | None \<Rightarrow> dlg_id (propsState w)))"
    by (simp add: useDialog_updateProps_def merge_props_def split: option.splits)
  show "props (propsState (useDialog_updateProps pb (useDialog_updateProps pa w)))
     = props (propsState w) ++ new_props pa ++ new_props pb"
    by (simp add: useDialog_updateProps_def merge_props_def)
next
  assume r: "reachable w"
  have inv: "controller_inv w" using r by (rule reachable_inv)
  from inv_registered [OF inv] obtain e where e: "store w (dlg_id (rendered w)) = Some e" ..
  define u where "u = useDialog_updateProps p w"
  have u_fields: "containerRef u = containerRef w" "document u = document w"
    "store u = store w" "rendered u = rendered w"
    by (simp_all add: u_def useDialog_updateProps_def)
  show "let n0 = length (document w);
           w0 = world_of (run [CallUpdateProps p, CallOpen] w)
       in containerRef w = None \<longrightarrow>
            returns (run [CallUpdateProps p, CallOpen] w) \<and>
            root_of w0 n0 = Some \<lparr>fallback = NullFallback, component_props = props (rendered w),
                                    component_id = dlg_id (rendered w)\<rparr>"
    unfolding Let_def
  proof (intro impI)
    assume c: "containerRef w = None"
    then have cu: "containerRef u = None" by (simp add: u_fields)
    have eu: "store u (dlg_id (rendered u)) = Some e" using e by (simp add: u_fields)
    note ou = open_unmounted [OF cu eu]
    show "returns (run [CallUpdateProps p, CallOpen] w) \<and>
        root_of (world_of (run [CallUpdateProps p, CallOpen] w)) (length (document w))
          = Some \<lparr>fallback = NullFallback, component_props = props (rendered w),
                    component_id = dlg_id (rendered w)\<rparr>"
      by (simp add: u_def [symmetric] ou root_of_def node_at_def u_fields)
  qed
next
  assume r: "reachable w" and ok: "dlg_id (merge_props (propsState w) p) \<noteq> ''__proto__''"
  have inv: "controller_inv w" using r by (rule reachable_inv)
  note reg = inv_registeredId [OF inv]
  define u where "u = useDialog_updateProps p w"
  have ru: "reachable u"
    using r unfolding u_def by (rule reachable.next_step [where a = "CallUpdateProps p"]) simp
  have run_eq: "run [CallUpdateProps p, Rerender] w = useDialog u"
    by (simp add: u_def split: outcome.splits)
  have u_fields: "propsState u = merge_props (propsState w) p" "containerRef u = containerRef w"
    "registeredId u = registeredId w" "calls u = calls w" "document u = document w"
    "isMountedState u = isMountedState w" "store u = store w" "rendered u = rendered w"
    by (simp_all add: u_def useDialog_updateProps_def)
  have g: "registeredId u = Some (dlg_id (propsState u)) \<or> dlg_id (propsState u) \<noteq> ''__proto__''"
    using ok by (simp add: u_fields)
  show "let m = merge_props (propsState w) p;
           r = run [CallUpdateProps p, Rerender] w;
           w' = world_of r;
           reg = (if dlg_id m = dlg_id (rendered w) then [] else [StoreRegister (dlg_id m)])
       in returns r \<and> rendered w' = m \<and> propsState w' = m \<and>
          (\<forall>n. containerRef w = Some n \<longrightarrow>
             calls w' = calls w @ reg @
               [Render \<lparr>fallback = LoadingFallback, component_props = props m,
                        component_id = dlg_id m\<rparr> n] \<and>
             root_of w' n = Some \<lparr>fallback = LoadingFallback, component_props = props m,
                                   component_id = dlg_id m\<rparr>) \<and>
          (containerRef w = None \<longrightarrow>
             calls w' = calls w @ reg \<and> document w' = document w \<and>
             returns (useDialog_open w') \<and>
             root_of (world_of (useDialog_open w')) (length (document w))
               = Some \<lparr>fallback = NullFallback, component_props = props m,
                        component_id = dlg_id m\<rparr> \<and>
             root_of (world_of (run [CallUpdateProps p, CallOpen, Rerender] w))
                 (length (document w))
               = Some \<lparr>fallback = LoadingFallback, component_props = props m,
                        component_id = dlg_id m\<rparr>)"
  proof (cases "containerRef w")
    case None
    then have cu: "containerRef u = None" by (simp add: u_fields)
    note eq = rerender_unmounted [OF cu g]
    define w' where "w' = world_of (useDialog u)"
    have rw': "reachable w'"
      using ru by (rule reachable.next_step [where a = Rerender]) (simp add: w'_def eq)
    have cw': "containerRef w' = None" by (simp add: w'_def eq cu)
    from inv_registered [OF reachable_inv [OF rw']]
    obtain e where e: "store w' (dlg_id (rendered w')) = Some e" ..
    note o = open_unmounted [OF cw' e]
    have f: "rendered w' = merge_props (propsState w) p" "document w' = document w"
      by (simp_all add: w'_def eq u_fields)
    from inv_registered [OF inv]
    obtain e0 where e0: "store u (dlg_id (rendered u)) = Some e0"
      by (auto simp: u_fields)
    note ou = open_unmounted [OF cu e0]
    define w3 where "w3 = world_of (run [CallUpdateProps p, CallOpen, Rerender] w)"
    have late: "root_of w3 (length (document w))
               = Some \<lparr>fallback = LoadingFallback,
                        component_props = props (merge_props (propsState w) p),
                        component_id = dlg_id (merge_props (propsState w) p)\<rparr>"
      unfolding w3_def
      using ok
      by (simp add: u_def [symmetric] ou)
        (simp add: useDialog_def dom_defs registerDialog_def Let_def u_fields)
    show ?thesis
      unfolding Let_def run_eq w'_def [symmetric] w3_def [symmetric]
      using None
      apply (simp add: o f late)
      apply (auto simp: w'_def eq u_fields reg root_of_def node_at_def)
      done
  next
    case (Some n)
    then have cu: "containerRef u = Some n" by (simp add: u_fields)
    from inv_attached [OF inv Some]
    have n: "n < length (document u)" and m: "isMountedState u" by (simp_all add: u_fields)
    note eq = rerender_mounted [OF cu n m g]
    show ?thesis
      unfolding Let_def run_eq
      using Some n
      by (auto simp: eq u_fields reg root_of_def node_at_def)
  qed
qed

theorem updateProps_merges_witness:
  "reachable modal1 \<and> reachable modal1_mounted \<and>
   containerRef modal1 = None \<and> containerRef modal1_mounted = Some 1 \<and>
   dlg_id (merge_props (propsState modal1) \<lparr>new_id = None, new_props = [''x'' \<mapsto> 1]\<rparr>)
     \<noteq> ''__proto__'' \<and>
   dlg_id (merge_props (propsState modal1_mounted) \<lparr>new_id = None, new_props = [''x'' \<mapsto> 1]\<rparr>)
     \<noteq> ''__proto__'' \<and>
   props (propsState
     (useDialog_updateProps \<lparr>new_id = None, new_props = [''y'' \<mapsto> 2]\<rparr>
       (useDialog_updateProps \<lparr>new_id = None, new_props = [''x'' \<mapsto> 1]\<rparr> modal1_mounted)))
     = [''title'' \<mapsto> 7, ''x'' \<mapsto> 1, ''y'' \<mapsto> 2] \<and>
   props (merge_props modal1_props \<lparr>new_id = None, new_props = [''x'' \<mapsto> 1]\<rparr>) ''x'' = Some 1 \<and>
   dlg_id (merge_props modal1_props rename_modal2) = ''modal-2'' \<and>
   calls (world_of (run [CallUpdateProps \<lparr>new_id = None, new_props = [''x'' \<mapsto> 1]\<rparr>, Rerender]
       modal1_mounted))
     = calls modal1_mounted @
         [Render \<lparr>fallback = LoadingFallback, component_props = [''title'' \<mapsto> 7, ''x'' \<mapsto> 1],
                  component_id = ''modal-1''\<rparr> 1] \<and>
   calls (world_of (run [CallUpdateProps \<lparr>new_id = None, new_props = [''x'' \<mapsto> 1]\<rparr>, Rerender]
       modal1)) = calls modal1 \<and>
   root_of (world_of (useDialog_open
       (world_of (run [CallUpdateProps \<lparr>new_id = None, new_props = [''x'' \<mapsto> 1]\<rparr>, Rerender]
          modal1)))) 1
     = Some \<lparr>fallback = NullFallback, component_props = [''title'' \<mapsto> 7, ''x'' \<mapsto> 1],
              component_id = ''modal-1''\<rparr> \<and>
   root_of (world_of
       (run [CallUpdateProps \<lparr>new_id = None, new_props = [''x'' \<mapsto> 1]\<rparr>, CallOpen] modal1)) 1
     = Some \<lparr>fallback = NullFallback, component_props = [''title'' \<mapsto> 7],
              component_id = ''modal-1''\<rparr>"
proof -
  let ?px = "\<lparr>new_id = None, new_props = [''x'' \<mapsto> (1::int)]\<rparr>"
  let ?py = "\<lparr>new_id = None, new_props = [''y'' \<mapsto> (2::int)]\<rparr>"
  note t1 = updateProps_merges [where w = modal1_mounted and p = ?px and pa = ?px and pb = ?py
      and q = modal1_props and k = "''x''"]
  note t2 = updateProps_merges [where w = modal1 and p = ?px and pa = ?px and pb = ?py
      and q = modal1_props and k = "''x''"]
  note t3 = updateProps_merges [where w = modal1 and p = rename_modal2 and pa = ?px and pb = ?py
      and q = modal1_props and k = "''x''"]
  have c: "containerRef modal1 = None" "containerRef modal1_mounted = Some 1"
    by (simp_all add: modal1_eq modal1_mounted_eq)
  have f: "propsState modal1 = modal1_props" "propsState modal1_mounted = modal1_props"
    "rendered modal1 = modal1_props" "rendered modal1_mounted = modal1_props"
    "length (document modal1) = 1"
    by (simp_all add: modal1_eq modal1_mounted_eq)
  have m: "merge_props modal1_props ?px
      = \<lparr>dlg_id = ''modal-1'', props = [''title'' \<mapsto> 7, ''x'' \<mapsto> 1]\<rparr>"
    by (simp add: merge_props_def modal1_props_def)
  have ok: "dlg_id (merge_props (propsState modal1) ?px) \<noteq> ''__proto__''"
    "dlg_id (merge_props (propsState modal1_mounted) ?px) \<noteq> ''__proto__''"
    by (simp_all add: f m)
  have a: "props (propsState (useDialog_updateProps ?py (useDialog_updateProps ?px modal1_mounted)))
     = [''title'' \<mapsto> 7, ''x'' \<mapsto> 1, ''y'' \<mapsto> 2]"
    using t1 by (simp add: f modal1_props_def)
  have b: "props (merge_props modal1_props ?px) ''x'' = Some 1"
    using t1 by simp
  have b2: "dlg_id (merge_props modal1_props rename_modal2) = ''modal-2''"
    using t3 by (simp add: rename_modal2_def)
  from t1 modal1_mounted_reachable ok(2)
  have "let m = merge_props (propsState modal1_mounted) ?px;
           r = run [CallUpdateProps ?px, Rerender] modal1_mounted;
           w' = world_of r;
           reg = (if dlg_id m = dlg_id (rendered modal1_mounted) then []
                  else [StoreRegister (dlg_id m)])
       in \<forall>n. containerRef modal1_mounted = Some n \<longrightarrow>
             calls w' = calls modal1_mounted @ reg @
               [Render \<lparr>fallback = LoadingFallback, component_props = props m,
                        component_id = dlg_id m\<rparr> n]"
    by (simp only: Let_def) blast
  with c(2)
  have d: "calls (world_of (run [CallUpdateProps ?px, Rerender] modal1_mounted))
     = calls modal1_mounted @
         [Render \<lparr>fallback = LoadingFallback, component_props = [''title'' \<mapsto> 7, ''x'' \<mapsto> 1],
                  component_id = ''modal-1''\<rparr> 1]"
    by (simp add: Let_def f m) (simp add: modal1_props_def)
  from t2 modal1_reachable ok(1)
  have "let m = merge_props (propsState modal1) ?px;
           r = run [CallUpdateProps ?px, Rerender] modal1;
           w' = world_of r;
           reg = (if dlg_id m = dlg_id (rendered modal1) then [] else [StoreRegister (dlg_id m)])
       in containerRef modal1 = None \<longrightarrow>
             calls w' = calls modal1 @ reg \<and>
             root_of (world_of (useDialog_open w')) (length (document modal1))
               = Some \<lparr>fallback = NullFallback, component_props = props m,
                        component_id = dlg_id m\<rparr>"
    by (simp only: Let_def) blast
  with c(1)
  have e: "calls (world_of (run [CallUpdateProps ?px, Rerender] modal1)) = calls modal1 \<and>
     root_of (world_of (useDialog_open (world_of (run [CallUpdateProps ?px, Rerender] modal1)))) 1
     = Some \<lparr>fallback = NullFallback, component_props = [''title'' \<mapsto> 7, ''x'' \<mapsto> 1],
              component_id = ''modal-1''\<rparr>"
    by (simp add: Let_def f m) (simp add: modal1_props_def)
  from t2 modal1_reachable c(1)
  have g: "root_of (world_of (run [CallUpdateProps ?px, CallOpen] modal1)) 1
     = Some \<lparr>fallback = NullFallback, component_props = [''title'' \<mapsto> 7],
              component_id = ''modal-1''\<rparr>"
    by (simp add: Let_def f modal1_props_def)
  from a b b2 c d e g ok modal1_reachable modal1_mounted_reachable show ?thesis
    by (simp only: simp_thms)
qed

text \<open>
  After \<^verbatim>\<open>updateProps({x: 1})\<close> on the controller without a container, an \<^verbatim>\<open>open()\<close>
  called before the hook renders again renders the tree without \<^verbatim>\<open>x\<close>, though the state
  cell holds it. On the mounted controller, the render after an update of the id to
  \<^verbatim>\<open>__proto__\<close> does not return.
\<close>

theorem updateProps_stale_open_counterexample:
  "reachable modal1 \<and> containerRef modal1 = None \<and>
   props (propsState (world_of
      (run [CallUpdateProps \<lparr>new_id = None, new_props = [''x'' \<mapsto> 1]\<rparr>, CallOpen] modal1)))
     = [''title'' \<mapsto> 7, ''x'' \<mapsto> 1] \<and>
   root_of (world_of
      (run [CallUpdateProps \<lparr>new_id = None, new_props = [''x'' \<mapsto> 1]\<rparr>, CallOpen] modal1)) 1
     = Some \<lparr>fallback = NullFallback, component_props = [''title'' \<mapsto> 7],
              component_id = ''modal-1''\<rparr> \<and>
   reachable modal1_mounted \<and>
   \<not> returns (run [CallUpdateProps \<lparr>new_id = Some ''__proto__'', new_props = Map.empty\<rparr>, Rerender]
        modal1_mounted)"
  using modal1_reachable modal1_mounted_reachable
  by (simp add: modal1_eq modal1_mounted_eq modal1_props_def hook_defs dom_defs)

text \<open>
  C8. \<^verbatim>\<open>open()\<close> on a controller that holds a container returns: it renders the tree
  again into the same element, creates and attaches nothing, and marks the entry of its id
  open. On a controller where every render since the last \<^verbatim>\<open>open()\<close> found the id
  unchanged, the entry was open already and the store stays as it was.
\<close>

theorem open_while_mounted:
  assumes "reachable w" and "containerRef w = Some n"
  shows "returns (useDialog_open w) \<and>
    (let w' = world_of (useDialog_open w);
         i = dlg_id (rendered w);
         el = \<lparr>fallback = NullFallback, component_props = props (rendered w), component_id = i\<rparr>
     in containerRef w' = Some n \<and> length (document w') = length (document w) \<and>
        calls w' = calls w @ [Render el n, StoreOpen i] \<and>
        root_of w' n = Some el \<and> parentNode_of w' n = Some Body \<and>
        isMountedState w' \<and> store w' = (store w)(i \<mapsto> \<lparr>is_open = True\<rparr>) \<and>
        (opened w \<longrightarrow> store w' = store w))"
proof -
  have inv: "controller_inv w" using assms(1) by (rule reachable_inv)
  from inv_attached [OF inv assms(2)]
  have p: "parentNode_of w n = Some Body" and n: "n < length (document w)" by simp_all
  from inv_registered [OF inv] obtain e where e: "store w (dlg_id (rendered w)) = Some e" ..
  have red: "opened w \<Longrightarrow> (store w)(dlg_id (rendered w) \<mapsto> \<lparr>is_open = True\<rparr>) = store w"
    using opened_inv [of w] by (simp add: map_upd_triv)
  show ?thesis
    using assms(2) p n red
    by (simp add: open_mounted [OF assms(2) p e] Let_def root_of_def parentNode_of_def
        node_at_def)
qed

theorem open_while_mounted_witness:
  "reachable modal1_mounted \<and> containerRef modal1_mounted = Some 1 \<and> opened modal1_mounted \<and>
   returns (useDialog_open modal1_mounted) \<and>
   containerRef (world_of (useDialog_open modal1_mounted)) = Some 1 \<and>
   length (document (world_of (useDialog_open modal1_mounted))) = 2 \<and>
   calls (world_of (useDialog_open modal1_mounted)) = calls modal1_mounted @
     [Render \<lparr>fallback = NullFallback, component_props = [''title'' \<mapsto> 7],
              component_id = ''modal-1''\<rparr> 1, StoreOpen ''modal-1''] \<and>
   store (world_of (useDialog_open modal1_mounted)) = store modal1_mounted"
  using open_while_mounted [OF modal1_mounted_reachable, of 1] modal1_mounted_reachable
    modal1_mounted_opened
  by (simp add: modal1_mounted_eq modal1_props_def Let_def)

text \<open>
  After the id of the mounted controller was changed to \<^verbatim>\<open>modal-2\<close> and the hook rendered
  again, the entry of \<^verbatim>\<open>modal-2\<close> is closed, and \<^verbatim>\<open>open()\<close> changes it to open.
\<close>

theorem open_while_mounted_renamed_counterexample:
  "reachable modal1_renamed \<and> containerRef modal1_renamed = Some 1 \<and>
   dlg_id (rendered modal1_renamed) = ''modal-2'' \<and>
   store modal1_renamed ''modal-2'' = Some \<lparr>is_open = False\<rparr> \<and>
   returns (useDialog_open modal1_renamed) \<and>
   store (world_of (useDialog_open modal1_renamed)) ''modal-2'' = Some \<lparr>is_open = True\<rparr>"
  using modal1_renamed_reachable
  by (simp add: modal1_renamed_eq hook_defs dom_defs)

text \<open>
  C9. \<^verbatim>\<open>close()\<close> on a controller without a container whose id is registered returns
  after the one call \<^verbatim>\<open>closeDialog(id)\<close> on the store: it touches no element and leaves
  the entry closed. On a controller that only its own calls have brought there the entry was
  closed already, so the store, the page and the controller are as they were.
\<close>

theorem close_while_unmounted:
  "(containerRef w = None \<longrightarrow> store w (dlg_id (rendered w)) \<noteq> None \<longrightarrow>
      returns (useDialog_close debounce w) \<and>
      (let w' = world_of (useDialog_close debounce w); i = dlg_id (rendered w)
       in calls w' = calls w @ [StoreClose i] \<and> document w' = document w \<and>
          containerRef w' = None \<and> store w' = (store w)(i \<mapsto> \<lparr>is_open = False\<rparr>))) \<and>
   (reachable w \<longrightarrow> containerRef w = None \<longrightarrow>
      useDialog_close debounce w =
        Returns (w\<lparr>calls := calls w @ [StoreClose (dlg_id (rendered w))]\<rparr>))"
proof (intro conjI impI)
  assume c: "containerRef w = None" and "store w (dlg_id (rendered w)) \<noteq> None"
  then obtain e where e: "store w (dlg_id (rendered w)) = Some e" by blast
  note eq = close_unmounted [OF c e, of debounce]
  show "returns (useDialog_close debounce w)" by (simp add: eq)
  show "let w' = world_of (useDialog_close debounce w); i = dlg_id (rendered w)
       in calls w' = calls w @ [StoreClose i] \<and> document w' = document w \<and>
          containerRef w' = None \<and> store w' = (store w)(i \<mapsto> \<lparr>is_open = False\<rparr>)"
    by (simp add: eq Let_def c)
next
  assume r: "reachable w" and c: "containerRef w = None"
  have inv: "controller_inv w" using r by (rule reachable_inv)
  from inv_closed [OF inv c]
  have e: "store w (dlg_id (rendered w)) = Some \<lparr>is_open = False\<rparr>" and m: "\<not> isMountedState w"
    by simp_all
  have "(store w)(dlg_id (rendered w) \<mapsto> \<lparr>is_open = False\<rparr>) = store w"
    using e by (rule map_upd_triv)
  then show "useDialog_close debounce w =
        Returns (w\<lparr>calls := calls w @ [StoreClose (dlg_id (rendered w))]\<rparr>)"
    using close_unmounted [OF c e, of debounce] m by (cases w) simp
qed

theorem close_while_unmounted_witness:
  "reachable modal1 \<and> containerRef modal1 = None \<and>
   store modal1 (dlg_id (rendered modal1)) \<noteq> None \<and>
   returns (useDialog_close 250 modal1) \<and>
   document (world_of (useDialog_close 250 modal1)) = document modal1 \<and>
   useDialog_close 250 modal1 =
     Returns (modal1\<lparr>calls := [StoreRegister ''modal-1'', StoreClose ''modal-1'']\<rparr>)"
proof -
  note th = close_while_unmounted [of modal1 250]
  have c: "containerRef modal1 = None" by (simp add: modal1_eq)
  have s: "store modal1 (dlg_id (rendered modal1)) \<noteq> None"
    by (simp add: modal1_eq modal1_props_def)
  from th c s have a: "returns (useDialog_close 250 modal1) \<and>
      document (world_of (useDialog_close 250 modal1)) = document modal1"
    by (simp add: Let_def)
  from th modal1_reachable c
  have "useDialog_close 250 modal1 =
      Returns (modal1\<lparr>calls := calls modal1 @ [StoreClose (dlg_id (rendered modal1))]\<rparr>)"
    by blast
  then have b: "useDialog_close 250 modal1 =
     Returns (modal1\<lparr>calls := [StoreRegister ''modal-1'', StoreClose ''modal-1'']\<rparr>)"
    by (simp add: modal1_eq modal1_props_def)
  from a b c s modal1_reachable show ?thesis by (simp only: simp_thms)
qed

end
